theory Spec2Isabelle
  imports Complex_Main "HOL-Library.Sublist" "HOL-Library.Multiset"
begin

section \<open>Python values\<close>

text \<open>
  A Python \<^verbatim>\<open>str\<close> is a sequence of Unicode code points. The keyword table of the
  recommender holds Chinese words, so a string is a list of code points (natural
  numbers); \<open>ascii\<close> embeds an ASCII literal.
\<close>

type_synonym pystr = "nat list"

definition ascii :: "string \<Rightarrow> pystr" where
  "ascii s = map of_char s"

text \<open>
  The catalog is what \<^verbatim>\<open>yaml.safe_load\<close> returns, and the recommender reads it as
  \<^verbatim>\<open>dict[str, Any]\<close>: nothing checks the type of a field before it is used. The
  values are therefore modelled dynamically. A mapping is the list of its items in
  insertion order, keys distinct; only string keys are ever looked up. Floats are
  idealised as reals: no rounding, no NaN, no infinity. Timestamps, binary data and
  sets, which YAML can also produce, are left out.
\<close>

datatype yval =
    YNone
  | YBool bool
  | YInt int
  | YFloat real
  | YStr pystr
  | YList "yval list"
  | YDict "(pystr \<times> yval) list"

datatype py_error = OSError | YAMLError | AttributeError | KeyError | TypeError

text \<open>Sequencing of computations that may raise: the first exception wins.\<close>

fun bind :: "'e + 'a \<Rightarrow> ('a \<Rightarrow> 'e + 'b) \<Rightarrow> 'e + 'b" where
  "bind (Inl e) f = Inl e"
| "bind (Inr x) f = f x"

text \<open>The numeric value of a number; \<^verbatim>\<open>bool\<close> is a subtype of \<^verbatim>\<open>int\<close>.\<close>

fun num_of :: "yval \<Rightarrow> real option" where
  "num_of (YBool b) = Some (if b then 1 else 0)"
| "num_of (YInt i) = Some (real_of_int i)"
| "num_of (YFloat x) = Some x"
| "num_of _ = None"

text \<open>Truth value testing, as \<^verbatim>\<open>if x\<close> and \<^verbatim>\<open>not x\<close> do it.\<close>

fun truthy :: "yval \<Rightarrow> bool" where
  "truthy YNone = False"
| "truthy (YBool b) = b"
| "truthy (YInt i) = (i \<noteq> 0)"
| "truthy (YFloat x) = (x \<noteq> 0)"
| "truthy (YStr s) = (s \<noteq> [])"
| "truthy (YList xs) = (xs \<noteq> [])"
| "truthy (YDict kvs) = (kvs \<noteq> [])"

text \<open>\<^verbatim>\<open>d.get(key, default)\<close>: only a dict has the method.\<close>

fun py_get :: "yval \<Rightarrow> pystr \<Rightarrow> yval \<Rightarrow> py_error + yval" where
  "py_get (YDict kvs) key dflt = Inr (case map_of kvs key of Some v \<Rightarrow> v | None \<Rightarrow> dflt)"
| "py_get _ key dflt = Inl AttributeError"

text \<open>
  \<^verbatim>\<open>d[key]\<close> with a string key: KeyError on a dict without the key, TypeError on a
  sequence (its indices must be integers) and on a value that cannot be subscripted.
\<close>

fun py_item :: "yval \<Rightarrow> pystr \<Rightarrow> py_error + yval" where
  "py_item (YDict kvs) key = (case map_of kvs key of Some v \<Rightarrow> Inr v | None \<Rightarrow> Inl KeyError)"
| "py_item _ key = Inl TypeError"

text \<open>
  The elements a \<^verbatim>\<open>for\<close> loop sees: the elements of a list, the keys of a dict, the
  characters of a string; anything else is not iterable.
\<close>

fun py_iter :: "yval \<Rightarrow> py_error + yval list" where
  "py_iter (YList xs) = Inr xs"
| "py_iter (YDict kvs) = Inr (map (\<lambda>kv. YStr (fst kv)) kvs)"
| "py_iter (YStr s) = Inr (map (\<lambda>c. YStr [c]) s)"
| "py_iter _ = Inl TypeError"

text \<open>\<^verbatim>\<open>x in xs\<close> for a list of strings: only an equal string is a member.\<close>

fun py_in :: "yval \<Rightarrow> pystr list \<Rightarrow> bool" where
  "py_in (YStr s) xs = (s \<in> set xs)"
| "py_in _ xs = False"

text \<open>
  \<^verbatim>\<open>table.get(key, default)\<close> on a table with string keys: a list or a dict cannot be
  hashed, any other value that is no key yields the default.
\<close>

fun table_get :: "(pystr \<times> int) list \<Rightarrow> yval \<Rightarrow> int \<Rightarrow> py_error + int" where
  "table_get table (YStr s) dflt = Inr (case map_of table s of Some n \<Rightarrow> n | None \<Rightarrow> dflt)"
| "table_get table (YList xs) dflt = Inl TypeError"
| "table_get table (YDict kvs) dflt = Inl TypeError"
| "table_get table _ dflt = Inr dflt"

text \<open>Equality \<^verbatim>\<open>==\<close>: numbers by value, containers by their contents.\<close>

fun py_eq :: "yval \<Rightarrow> yval \<Rightarrow> bool"
  and py_eq_list :: "yval list \<Rightarrow> yval list \<Rightarrow> bool"
  and py_eq_items :: "(pystr \<times> yval) list \<Rightarrow> (pystr \<times> yval) list \<Rightarrow> bool" where
  "py_eq YNone YNone = True"
| "py_eq (YStr s) (YStr t) = (s = t)"
| "py_eq (YList xs) (YList ys) = py_eq_list xs ys"
| "py_eq (YDict kvs) (YDict kws) = (length kvs = length kws \<and> py_eq_items kvs kws)"
| "py_eq a b = (case (num_of a, num_of b) of (Some x, Some y) \<Rightarrow> x = y | _ \<Rightarrow> False)"
| "py_eq_list [] [] = True"
| "py_eq_list (x # xs) (y # ys) = (py_eq x y \<and> py_eq_list xs ys)"
| "py_eq_list _ _ = False"
| "py_eq_items [] kws = True"
| "py_eq_items (kv # kvs) kws =
     (case map_of kws (fst kv) of
        None \<Rightarrow> False
      | Some w \<Rightarrow> py_eq (snd kv) w \<and> py_eq_items kvs kws)"

text \<open>Strings are ordered lexicographically by code point.\<close>

fun str_lt :: "pystr \<Rightarrow> pystr \<Rightarrow> bool" where
  "str_lt [] t = (t \<noteq> [])"
| "str_lt (c # s) [] = False"
| "str_lt (c # s) (d # t) = (c < d \<or> (c = d \<and> str_lt s t))"

text \<open>
  \<^verbatim>\<open>a < b\<close>: defined between two numbers, two strings and two lists (decided at the
  first pair of unequal elements, else by length); a TypeError otherwise.
\<close>

fun py_lt :: "yval \<Rightarrow> yval \<Rightarrow> py_error + bool"
  and py_lt_list :: "yval list \<Rightarrow> yval list \<Rightarrow> py_error + bool" where
  "py_lt (YStr s) (YStr t) = Inr (str_lt s t)"
| "py_lt (YList xs) (YList ys) = py_lt_list xs ys"
| "py_lt a b = (case (num_of a, num_of b) of (Some x, Some y) \<Rightarrow> Inr (x < y) | _ \<Rightarrow> Inl TypeError)"
| "py_lt_list [] ys = Inr (ys \<noteq> [])"
| "py_lt_list (x # xs) [] = Inr False"
| "py_lt_list (x # xs) (y # ys) = (if py_eq x y then py_lt_list xs ys else py_lt x y)"

definition py_gt :: "yval \<Rightarrow> yval \<Rightarrow> py_error + bool" where
  "py_gt a b = py_lt b a"

text \<open>Arithmetic of a value with a float constant: a float, or a TypeError.\<close>

definition py_mul :: "yval \<Rightarrow> real \<Rightarrow> py_error + yval" where
  "py_mul a c = (case num_of a of Some x \<Rightarrow> Inr (YFloat (x * c)) | None \<Rightarrow> Inl TypeError)"

definition py_add :: "yval \<Rightarrow> real \<Rightarrow> py_error + yval" where
  "py_add a c = (case num_of a of Some x \<Rightarrow> Inr (YFloat (x + c)) | None \<Rightarrow> Inl TypeError)"

definition py_sub :: "yval \<Rightarrow> real \<Rightarrow> py_error + yval" where
  "py_sub a c = (case num_of a of Some x \<Rightarrow> Inr (YFloat (x - c)) | None \<Rightarrow> Inl TypeError)"

text \<open>\<^verbatim>\<open>xs[:n]\<close>: a negative bound counts from the end.\<close>

definition py_slice_to :: "int \<Rightarrow> 'a list \<Rightarrow> 'a list" where
  "py_slice_to n xs = (if 0 \<le> n then take (nat n) xs else take (nat (int (length xs) + n)) xs)"

section \<open>The tables of the recommender\<close>

text \<open>
  \<^verbatim>\<open>CATEGORY_KEYWORDS\<close>, in declaration order (a Python dict iterates in insertion
  order). The Chinese keywords are written as their code points.
\<close>

definition CATEGORY_KEYWORDS :: "(pystr \<times> pystr list) list" where
  "CATEGORY_KEYWORDS =
   [(ascii ''coding'',
      [[20195, 30721], [32534, 31243], [24320, 21457], ascii ''debug'', [35843, 35797],
       [37325, 26500], ascii ''API'', [31243, 24207], [36719, 20214], [33050, 26412]]),
    (ascii ''writing'',
      [[20889, 20316], [25991, 31456], [21338, 23458], [25991, 26696], [20869, 23481],
       [32763, 35793], [37038, 20214], [25253, 21578], [25991, 26723], [35770, 25991]]),
    (ascii ''image'',
      [[22270, 29255], [22270, 20687], [32472, 22270], [35774, 35745], [25554, 30011],
       [28023, 25253], [35270, 35273], [32654, 26415], [29983, 22270]]),
    (ascii ''audio'',
      [[35821, 38899], [38899, 39057], [38899, 20048], [37197, 38899], [36716, 24405],
       [23383, 24149], [25773, 23458], [27468, 26354]]),
    (ascii ''research'',
      [[25628, 32034], [35843, 30740], [26597, 25214], [20449, 24687], [36164, 26009],
       [23398, 26415], [20998, 26512], [26032, 38395]]),
    (ascii ''data'',
      [[25968, 25454], [20998, 26512], [32479, 35745], [22270, 34920],
       [21487, 35270, 21270], ascii ''Excel'', ascii ''CSV'', [25968, 25454, 24211]]),
    (ascii ''video'',
      [[35270, 39057], [30701, 29255], [21160, 30011], [24433, 29255], [21098, 36753],
       [29305, 25928]]),
    (ascii ''foundation'',
      [[23545, 35805], [32842, 22825], [38382, 31572], [25512, 29702], [36890, 29992],
       [21161, 25163]])]"

definition BUDGET_LEVELS :: "(pystr \<times> int) list" where
  "BUDGET_LEVELS =
   [(ascii ''free'', 0), (ascii ''low'', 20), (ascii ''medium'', 50), (ascii ''high'', 999)]"

definition TECH_LEVELS :: "(pystr \<times> int) list" where
  "TECH_LEVELS = [(ascii ''beginner'', 1), (ascii ''intermediate'', 2), (ascii ''advanced'', 3)]"

text \<open>The two reasons a result can carry (\<^verbatim>\<open>match_reasons\<close>), as code points.\<close>

definition reason_free :: pystr where
  "reason_free = [26377, 20813, 36153, 29256]"

definition reason_tech :: pystr where
  "reason_tech = [36866, 21512, 20320, 30340, 25216, 26415, 27700, 24179]"

section \<open>The recommender\<close>

record ToolResult =
  tool :: yval
  score :: real
  match_reasons :: "pystr list"

text \<open>
  The object holds the catalog, whatever the document's \<^verbatim>\<open>tools\<close> entry is. A method
  is a function of the object that returns its value together with the object after
  the call.
\<close>

record Recommender =
  tools :: yval

text \<open>
  \<^verbatim>\<open>__init__\<close> opens the file and parses it; both are the work of the interpreter and
  of the YAML library, so the model starts from their outcome.
\<close>

datatype source = Missing | Unparsable | Document yval

fun init :: "source \<Rightarrow> py_error + Recommender" where
  "init Missing = Inl OSError"
| "init Unparsable = Inl YAMLError"
| "init (Document data) =
     bind (py_get data (ascii ''tools'') (YList [])) (\<lambda>ts. Inr \<lparr>tools = ts\<rparr>)"

subsection \<open>classify_scenario\<close>

text \<open>
  \<^verbatim>\<open>str.lower\<close> is the interpreter's, with the case tables of Unicode behind it: the
  model takes it as the parameter \<open>lower\<close>. \<open>ascii_lower\<close> is what it does on a
  string of ASCII characters and CJK ideographs, and serves for concrete inputs.
\<close>

definition ascii_lower :: "pystr \<Rightarrow> pystr" where
  "ascii_lower s = map (\<lambda>c. if 65 \<le> c \<and> c \<le> 90 then c + 32 else c) s"

text \<open>\<^verbatim>\<open>sum(1 for kw in keywords if kw.lower() in text_lower)\<close>\<close>

definition keyword_count :: "(pystr \<Rightarrow> pystr) \<Rightarrow> pystr \<Rightarrow> pystr list \<Rightarrow> int" where
  "keyword_count lower text_lower keywords =
     int (length (filter (\<lambda>kw. sublist (lower kw) text_lower) keywords))"

text \<open>The loop over the table builds the dict \<^verbatim>\<open>scores\<close>, in the table's order.\<close>

fun category_scores :: "(pystr \<Rightarrow> pystr) \<Rightarrow> pystr \<Rightarrow> (pystr \<times> pystr list) list \<Rightarrow> (pystr \<times> int) list" where
  "category_scores lower text_lower [] = []"
| "category_scores lower text_lower ((category, keywords) # rest) =
     (let count = keyword_count lower text_lower keywords
      in if count > 0 then (category, count) # category_scores lower text_lower rest
         else category_scores lower text_lower rest)"

text \<open>\<^verbatim>\<open>scores[c]\<close> for a key of \<^verbatim>\<open>scores\<close>; the sort never asks for another.\<close>

definition score_of :: "(pystr \<times> int) list \<Rightarrow> pystr \<Rightarrow> int" where
  "score_of scores c = (case map_of scores c of Some n \<Rightarrow> n | None \<Rightarrow> 0)"

text \<open>
  \<^verbatim>\<open>sorted(..., reverse=True)\<close> is stable: it sorts by descending key and keeps
  elements with equal keys in their order. \<open>sort_key\<close> with the negated key does so.
\<close>

definition classify_scenario :: "Recommender \<Rightarrow> (pystr \<Rightarrow> pystr) \<Rightarrow> pystr \<Rightarrow> pystr list \<times> Recommender" where
  "classify_scenario self lower text =
     (let text_lower = lower text;
          scores = category_scores lower text_lower CATEGORY_KEYWORDS
      in (if scores = [] then [ascii ''foundation'']
          else sort_key (\<lambda>c. - score_of scores c) (map fst scores), self))"

subsection \<open>recommend\<close>

text \<open>
  The minimum of the generator of prices, \<^verbatim>\<open>default=0\<close>. \<^verbatim>\<open>min\<close> pulls one
  plan at a time, reads its price and keeps it when it is less than the least so far.
\<close>

fun min_loop :: "yval \<Rightarrow> yval list \<Rightarrow> py_error + yval" where
  "min_loop cur [] = Inr cur"
| "min_loop cur (p # ps) =
     bind (py_get p (ascii ''price'') (YInt 0)) (\<lambda>v.
     bind (py_lt v cur) (\<lambda>less. min_loop (if less then v else cur) ps))"

definition min_price :: "yval \<Rightarrow> py_error + yval" where
  "min_price t =
     bind (py_get t (ascii ''pricing'') (YDict [])) (\<lambda>pricing.
     bind (py_get pricing (ascii ''paid_plans'') (YList [])) (\<lambda>plans.
     bind (py_iter plans) (\<lambda>ps.
       case ps of
         [] \<Rightarrow> Inr (YInt 0)
       | p # rest \<Rightarrow> bind (py_get p (ascii ''price'') (YInt 0)) (\<lambda>v. min_loop v rest))))"

definition has_free :: "yval \<Rightarrow> py_error + yval" where
  "has_free t =
     bind (py_get t (ascii ''pricing'') (YDict [])) (\<lambda>pricing.
     py_get pricing (ascii ''free_tier'') (YBool False))"

text \<open>\<^verbatim>\<open>tool["scores"][key]\<close>\<close>

definition scores_item :: "yval \<Rightarrow> pystr \<Rightarrow> py_error + yval" where
  "scores_item t key = bind (py_item t (ascii ''scores'')) (\<lambda>s. py_item s key)"

text \<open>\<^verbatim>\<open>TECH_LEVELS.get(tool.get("technical_level", "beginner"), 1)\<close>\<close>

definition tool_tech :: "yval \<Rightarrow> py_error + int" where
  "tool_tech t =
     bind (py_get t (ascii ''technical_level'') (YStr (ascii ''beginner''))) (\<lambda>level.
     table_get TECH_LEVELS level 1)"

text \<open>
  The budget rule. \<open>None\<close> is the \<^verbatim>\<open>continue\<close> that drops the tool. The price is
  compared with the limit only when the tool has no free tier (\<^verbatim>\<open>and\<close> evaluates its
  right operand only then).
\<close>

definition budget_rule ::
  "pystr \<Rightarrow> int \<Rightarrow> yval \<Rightarrow> yval \<Rightarrow> yval \<times> pystr list \<Rightarrow> py_error + (yval \<times> pystr list) option" where
  "budget_rule budget budget_limit hf mp acc =
     (if budget = ascii ''free'' \<and> \<not> truthy hf then Inr None
      else if \<not> truthy hf then
        bind (py_gt mp (YInt budget_limit)) (\<lambda>over.
          if over then bind (py_mul (fst acc) (7 / 10)) (\<lambda>s. Inr (Some (s, snd acc)))
          else Inr (Some acc))
      else bind (py_add (fst acc) (3 / 10)) (\<lambda>s. Inr (Some (s, snd acc @ [reason_free]))))"

text \<open>The technical level rule.\<close>

definition tech_rule :: "int \<Rightarrow> yval \<Rightarrow> yval \<times> pystr list \<Rightarrow> py_error + yval \<times> pystr list" where
  "tech_rule user_tech t acc =
     bind (tool_tech t) (\<lambda>tt.
       if tt \<le> user_tech then bind (py_add (fst acc) (2 / 10)) (\<lambda>s. Inr (s, snd acc @ [reason_tech]))
       else if tt > user_tech + 1 then bind (py_sub (fst acc) (5 / 10)) (\<lambda>s. Inr (s, snd acc))
       else Inr acc)"

text \<open>
  \<^verbatim>\<open>score += tool["scores"]["value"] * 0.1\<close>: the right-hand side is evaluated
  first, then added.
\<close>

definition value_rule :: "yval \<Rightarrow> yval \<Rightarrow> py_error + real" where
  "value_rule t s =
     bind (scores_item t (ascii ''value'')) (\<lambda>v.
     bind (py_mul v (1 / 10)) (\<lambda>w.
       case (num_of s, num_of w) of
         (Some x, Some y) \<Rightarrow> Inr (x + y)
       | _ \<Rightarrow> Inl TypeError))"

text \<open>The body of the loop for one tool: \<open>None\<close> when the tool is skipped.\<close>

definition score_tool :: "pystr list \<Rightarrow> pystr \<Rightarrow> int \<Rightarrow> int \<Rightarrow> yval \<Rightarrow> py_error + ToolResult option" where
  "score_tool categories budget budget_limit user_tech t =
     bind (py_get t (ascii ''category'') YNone) (\<lambda>category.
       if \<not> py_in category categories then Inr None
       else
         bind (scores_item t (ascii ''overall'')) (\<lambda>overall.
         bind (min_price t) (\<lambda>mp.
         bind (has_free t) (\<lambda>hf.
         bind (budget_rule budget budget_limit hf mp (overall, [])) (\<lambda>kept.
           case kept of
             None \<Rightarrow> Inr None
           | Some acc \<Rightarrow>
               bind (tech_rule user_tech t acc) (\<lambda>acc'.
               bind (value_rule t (fst acc')) (\<lambda>final.
                 Inr (Some \<lparr>tool = t, score = final, match_reasons = snd acc'\<rparr>))))))))"

text \<open>The loop over the catalog, \<open>results\<close> being the list it appends to.\<close>

fun collect :: "pystr list \<Rightarrow> pystr \<Rightarrow> int \<Rightarrow> int \<Rightarrow> ToolResult list \<Rightarrow> yval list \<Rightarrow> py_error + ToolResult list" where
  "collect categories budget budget_limit user_tech results [] = Inr results"
| "collect categories budget budget_limit user_tech results (t # rest) =
     bind (score_tool categories budget budget_limit user_tech t) (\<lambda>out.
       collect categories budget budget_limit user_tech
         (case out of None \<Rightarrow> results | Some r \<Rightarrow> results @ [r]) rest)"

text \<open>\<^verbatim>\<open>table.get(key, default)\<close> for a string key.\<close>

definition level_of :: "(pystr \<times> int) list \<Rightarrow> pystr \<Rightarrow> int \<Rightarrow> int" where
  "level_of table key dflt = (case map_of table key of Some n \<Rightarrow> n | None \<Rightarrow> dflt)"

definition recommend ::
  "Recommender \<Rightarrow> pystr list \<Rightarrow> pystr \<Rightarrow> pystr \<Rightarrow> int \<Rightarrow> (py_error + ToolResult list) \<times> Recommender" where
  "recommend self categories budget tech_level top_n =
     (let budget_limit = level_of BUDGET_LEVELS budget 50;
          user_tech = level_of TECH_LEVELS tech_level 1
      in (bind (py_iter (tools self)) (\<lambda>ts.
          bind (collect categories budget budget_limit user_tech [] ts) (\<lambda>results.
            Inr (py_slice_to top_n (sort_key (\<lambda>r. - score r) results)))), self))"

section \<open>Auxiliary notions\<close>

text \<open>The results of the loop, tool by tool.\<close>

fun kept :: "py_error + ToolResult option \<Rightarrow> ToolResult list" where
  "kept (Inr (Some r)) = [r]"
| "kept _ = []"

text \<open>A record of the catalog is a mapping.\<close>

fun is_dict :: "yval \<Rightarrow> bool" where
  "is_dict (YDict kvs) = True"
| "is_dict _ = False"

text \<open>
  A small catalog for concrete runs: the two tools of the specification's example, a
  third with paid plans only, over a medium budget and for advanced users, and a record
  of another category that carries nothing but its id and category.
\<close>

definition tool_a :: yval where
  "tool_a = YDict
     [(ascii ''id'', YStr (ascii ''a'')),
      (ascii ''category'', YStr (ascii ''coding'')),
      (ascii ''technical_level'', YStr (ascii ''beginner'')),
      (ascii ''scores'', YDict [(ascii ''overall'', YFloat 8), (ascii ''value'', YFloat 7)]),
      (ascii ''pricing'', YDict [(ascii ''free_tier'', YBool True)])]"

definition tool_b :: yval where
  "tool_b = YDict
     [(ascii ''id'', YStr (ascii ''b'')),
      (ascii ''category'', YStr (ascii ''coding'')),
      (ascii ''technical_level'', YStr (ascii ''beginner'')),
      (ascii ''scores'', YDict [(ascii ''overall'', YFloat 8), (ascii ''value'', YFloat 9)]),
      (ascii ''pricing'', YDict
         [(ascii ''free_tier'', YBool False),
          (ascii ''paid_plans'', YList [YDict [(ascii ''price'', YInt 10)]])])]"

definition tool_c :: yval where
  "tool_c = YDict
     [(ascii ''id'', YStr (ascii ''c'')),
      (ascii ''category'', YStr (ascii ''coding'')),
      (ascii ''technical_level'', YStr (ascii ''advanced'')),
      (ascii ''scores'', YDict [(ascii ''overall'', YInt 9), (ascii ''value'', YInt 5)]),
      (ascii ''pricing'', YDict
         [(ascii ''paid_plans'',
            YList [YDict [(ascii ''price'', YInt 100)], YDict [(ascii ''price'', YFloat 60)]])])]"

definition tool_w :: yval where
  "tool_w = YDict
     [(ascii ''id'', YStr (ascii ''w'')),
      (ascii ''category'', YStr (ascii ''writing''))]"

definition example :: Recommender where
  "example = \<lparr>tools = YList [tool_w, tool_c, tool_b, tool_a]\<rparr>"


text \<open>
  The required fields of a record as the specification lists them (\<open>id\<close>,
  \<open>name\<close>, \<open>category\<close>, \<open>scores.overall\<close>). The source has no such check; the
  predicate only serves to state what loading does not do.
\<close>

definition has_required_fields :: "yval \<Rightarrow> bool" where
  "has_required_fields t =
     (case t of
        YDict kvs \<Rightarrow>
          map_of kvs (ascii ''id'') \<noteq> None \<and> map_of kvs (ascii ''name'') \<noteq> None \<and>
          map_of kvs (ascii ''category'') \<noteq> None \<and>
          (case map_of kvs (ascii ''scores'') of
             Some (YDict ss) \<Rightarrow> map_of ss (ascii ''overall'') \<noteq> None
           | _ \<Rightarrow> False)
      | _ \<Rightarrow> False)"

text \<open>
  A well-formed catalog: a list of records that have numeric \<open>scores.overall\<close> and
  \<open>scores.value\<close>, whose \<open>pricing\<close>, when present, is a mapping with a list of plans
  of numeric prices (or none), and whose \<open>technical_level\<close>, when present, is a scalar.
  All other fields may be absent. On such a catalog no step of \<open>recommend\<close> raises.
\<close>

definition is_num :: "yval \<Rightarrow> bool" where
  "is_num v = (num_of v \<noteq> None)"

definition wf_plan :: "yval \<Rightarrow> bool" where
  "wf_plan p =
     (case p of
        YDict kvs \<Rightarrow> (case map_of kvs (ascii ''price'') of None \<Rightarrow> True | Some v \<Rightarrow> is_num v)
      | _ \<Rightarrow> False)"

definition wf_pricing :: "yval \<Rightarrow> bool" where
  "wf_pricing pr =
     (case pr of
        YDict kvs \<Rightarrow>
          (case map_of kvs (ascii ''paid_plans'') of
             None \<Rightarrow> True
           | Some (YList ps) \<Rightarrow> list_all wf_plan ps
           | Some _ \<Rightarrow> False)
      | _ \<Rightarrow> False)"

definition wf_scores :: "yval \<Rightarrow> bool" where
  "wf_scores s =
     (case s of
        YDict kvs \<Rightarrow>
          (case map_of kvs (ascii ''overall'') of None \<Rightarrow> False | Some v \<Rightarrow> is_num v) \<and>
          (case map_of kvs (ascii ''value'') of None \<Rightarrow> False | Some v \<Rightarrow> is_num v)
      | _ \<Rightarrow> False)"

definition wf_level :: "yval \<Rightarrow> bool" where
  "wf_level l = (case l of YList xs \<Rightarrow> False | YDict kvs \<Rightarrow> False | _ \<Rightarrow> True)"

definition wf_tool :: "yval \<Rightarrow> bool" where
  "wf_tool t =
     (case t of
        YDict kvs \<Rightarrow>
          (case map_of kvs (ascii ''scores'') of None \<Rightarrow> False | Some s \<Rightarrow> wf_scores s) \<and>
          (case map_of kvs (ascii ''pricing'') of None \<Rightarrow> True | Some pr \<Rightarrow> wf_pricing pr) \<and>
          (case map_of kvs (ascii ''technical_level'') of None \<Rightarrow> True | Some l \<Rightarrow> wf_level l)
      | _ \<Rightarrow> False)"

definition wf_catalog :: "yval \<Rightarrow> bool" where
  "wf_catalog c = (case c of YList ts \<Rightarrow> list_all wf_tool ts | _ \<Rightarrow> False)"




text \<open>
  The count of a category as the specification words it: the number of its keywords
  that occur in the lowered text, each keyword counted once. \<open>ranked_by_hits\<close> says that
  a list holds exactly the categories with a positive count, each once, in descending
  order of count, the categories of equal count standing in the order of the table.
\<close>

definition keywords_of :: "pystr \<Rightarrow> pystr list" where
  "keywords_of c = (case map_of CATEGORY_KEYWORDS c of Some kws \<Rightarrow> kws | None \<Rightarrow> [])"

definition hits :: "(pystr \<Rightarrow> pystr) \<Rightarrow> pystr \<Rightarrow> pystr \<Rightarrow> nat" where
  "hits lower txt c = card {kw \<in> set (keywords_of c). sublist (lower kw) (lower txt)}"

definition ranked_by_hits :: "(pystr \<Rightarrow> pystr) \<Rightarrow> pystr \<Rightarrow> pystr list \<Rightarrow> bool" where
  "ranked_by_hits lower txt rs \<longleftrightarrow>
     set rs = {c \<in> fst ` set CATEGORY_KEYWORDS. 0 < hits lower txt c} \<and>
     distinct rs \<and>
     sorted_wrt (\<lambda>a b. hits lower txt b \<le> hits lower txt a) rs \<and>
     (\<forall>k. filter (\<lambda>c. hits lower txt c = k) rs =
          filter (\<lambda>c. hits lower txt c = k \<and> 0 < k) (map fst CATEGORY_KEYWORDS))"

text \<open>
  Two texts for concrete runs of the classifier: one that names tools in mixed case,
  one without any keyword.
\<close>

definition text_tools :: pystr where
  "text_tools = ascii ''Debug API Excel''"

definition text_plain :: pystr where
  "text_plain = ascii ''hello world''"

section \<open>Basic facts\<close>

lemma ascii_eq_iff [simp]: "ascii s = ascii t \<longleftrightarrow> s = t"
  unfolding ascii_def by (simp add: inj_map_eq_map [OF inj_of_char])

lemma bind_eq_Inr: "bind m f = Inr y \<longleftrightarrow> (\<exists>x. m = Inr x \<and> f x = Inr y)"
  by (cases m) simp_all

lemma py_in_iff: "py_in v xs \<longleftrightarrow> (\<exists>s. v = YStr s \<and> s \<in> set xs)"
  by (cases v) simp_all

lemma set_py_slice_to: "set (py_slice_to n xs) \<subseteq> set xs"
  by (auto simp: py_slice_to_def dest: in_set_takeD)

lemma is_num_simps [simp]: "is_num (YFloat x)" "is_num (YInt i)" "is_num (YBool b)"
  by (simp_all add: is_num_def)

lemma py_lt_num: "num_of a = Some x \<Longrightarrow> num_of b = Some y \<Longrightarrow> py_lt a b = Inr (x < y)"
  by (cases a; cases b) simp_all

lemma py_arith_num:
  assumes "num_of a = Some x"
  shows "py_mul a c = Inr (YFloat (x * c))" and "py_add a c = Inr (YFloat (x + c))"
    and "py_sub a c = Inr (YFloat (x - c))"
  using assms by (simp_all add: py_mul_def py_add_def py_sub_def)


lemma level_medium: "level_of BUDGET_LEVELS (ascii ''medium'') 50 = 50"
  by (simp add: level_of_def BUDGET_LEVELS_def)

lemma level_beginner: "level_of TECH_LEVELS (ascii ''beginner'') 1 = 1"
  by (simp add: level_of_def TECH_LEVELS_def)




lemma sort_key_eq:
  "(\<And>x. x \<in> set xs \<Longrightarrow> f x = g x) \<Longrightarrow> sort_key f xs = sort_key g xs"
proof (induction xs)
  case Nil
  show ?case by simp
next
  case (Cons x xs)
  have ins: "insort_key f x ys = insort_key g x ys" if "set ys \<subseteq> set (x # xs)" for ys
    using that Cons.prems by (induction ys) auto
  from Cons have "sort_key f xs = sort_key g xs" by simp
  moreover have "set (sort_key g xs) \<subseteq> set (x # xs)" by auto
  ultimately show ?case using ins by simp
qed

section \<open>The loop of recommend\<close>

subsection \<open>The list of results\<close>

lemma collect_acc:
  "collect cs b bl ut acc ts = bind (collect cs b bl ut [] ts) (\<lambda>rs. Inr (acc @ rs))"
proof (induction ts arbitrary: acc)
  case Nil
  show ?case by simp
next
  case (Cons t ts)
  show ?case
  proof (cases "score_tool cs b bl ut t")
    case (Inl e)
    then show ?thesis by simp
  next
    case (Inr out)
    show ?thesis
    proof (cases out)
      case None
      with Inr Cons [of acc] show ?thesis by simp
    next
      case (Some r)
      have "collect cs b bl ut (acc @ [r]) ts = bind (collect cs b bl ut [] ts) (\<lambda>rs. Inr (acc @ r # rs))"
        using Cons [of "acc @ [r]"] by simp
      moreover have "collect cs b bl ut [r] ts = bind (collect cs b bl ut [] ts) (\<lambda>rs. Inr (r # rs))"
        using Cons [of "[r]"] by simp
      ultimately show ?thesis using Inr Some
        by (cases "collect cs b bl ut [] ts") simp_all
    qed
  qed
qed

lemma collect_Cons:
  "collect cs b bl ut [] (t # ts) = Inr rs \<longleftrightarrow>
     (\<exists>out rest. score_tool cs b bl ut t = Inr out \<and> collect cs b bl ut [] ts = Inr rest \<and>
        rs = kept (Inr out) @ rest)"
proof (cases "score_tool cs b bl ut t")
  case (Inl e)
  then show ?thesis by simp
next
  case (Inr out)
  then show ?thesis
    by (cases out; cases "collect cs b bl ut [] ts")
      (auto simp: collect_acc [of cs b bl ut "[r]" for r])
qed

lemma collect_Inr:
  "collect cs b bl ut [] ts = Inr rs \<Longrightarrow>
     rs = concat (map (\<lambda>t. kept (score_tool cs b bl ut t)) ts) \<and>
     (\<forall>t \<in> set ts. \<exists>out. score_tool cs b bl ut t = Inr out)"
proof (induction ts arbitrary: rs)
  case Nil
  then show ?case by simp
next
  case (Cons t ts)
  then show ?case by (auto simp: collect_Cons simp del: collect.simps)
qed


lemma collect_member:
  assumes "collect cs b bl ut [] ts = Inr rs" and "r \<in> set rs"
  shows "\<exists>t \<in> set ts. score_tool cs b bl ut t = Inr (Some r)"
proof -
  from assms obtain t where t: "t \<in> set ts" "r \<in> set (kept (score_tool cs b bl ut t))"
    by (auto dest!: collect_Inr)
  then have "score_tool cs b bl ut t = Inr (Some r)"
    by (cases "score_tool cs b bl ut t" rule: kept.cases) simp_all
  with t show ?thesis by blast
qed


lemma recommend_Inr:
  assumes "fst (recommend self cs b lv n) = Inr rs"
  shows "\<exists>ts results. py_iter (tools self) = Inr ts \<and>
     collect cs b (level_of BUDGET_LEVELS b 50) (level_of TECH_LEVELS lv 1) [] ts = Inr results \<and>
     rs = py_slice_to n (sort_key (\<lambda>r. - score r) results)"
  using assms by (auto simp: recommend_def Let_def bind_eq_Inr)

lemma recommend_member:
  assumes "fst (recommend self cs b lv n) = Inr rs" and "r \<in> set rs"
  shows "\<exists>ts t. py_iter (tools self) = Inr ts \<and> t \<in> set ts \<and>
     score_tool cs b (level_of BUDGET_LEVELS b 50) (level_of TECH_LEVELS lv 1) t = Inr (Some r)"
proof -
  from recommend_Inr [OF assms(1)] obtain ts results where
    ts: "py_iter (tools self) = Inr ts" and
    c: "collect cs b (level_of BUDGET_LEVELS b 50) (level_of TECH_LEVELS lv 1) [] ts = Inr results" and
    rs: "rs = py_slice_to n (sort_key (\<lambda>r. - score r) results)"
    by blast
  from rs assms(2) have "r \<in> set results"
    using set_py_slice_to [of n "sort_key (\<lambda>r. - score r) results"] by auto
  from collect_member [OF c this] ts show ?thesis by blast
qed

subsection \<open>The score of one tool\<close>

lemma score_tool_skip:
  "py_get t (ascii ''category'') YNone = Inr c \<Longrightarrow> \<not> py_in c cs \<Longrightarrow> score_tool cs b bl ut t = Inr None"
  by (simp add: score_tool_def)

lemma score_tool_Some:
  assumes "score_tool cs b bl ut t = Inr (Some r)"
  shows "\<exists>c ov mp hf acc acc'. py_get t (ascii ''category'') YNone = Inr (YStr c) \<and> c \<in> set cs \<and>
     scores_item t (ascii ''overall'') = Inr ov \<and> min_price t = Inr mp \<and> has_free t = Inr hf \<and>
     budget_rule b bl hf mp (ov, []) = Inr (Some acc) \<and> tech_rule ut t acc = Inr acc' \<and>
     value_rule t (fst acc') = Inr (score r) \<and> tool r = t \<and> match_reasons r = snd acc'"
  using assms unfolding score_tool_def
  by (auto simp: bind_eq_Inr py_in_iff split: if_splits option.splits)

lemma collect_no_categories:
  "list_all is_dict ts \<Longrightarrow> collect [] b bl ut [] ts = Inr []"
proof (induction ts)
  case Nil
  show ?case by simp
next
  case (Cons t ts)
  then obtain kvs where "t = YDict kvs" by (cases t) simp_all
  then have "score_tool [] b bl ut t = Inr None"
    by (simp add: score_tool_def py_in_iff)
  with Cons show ?case by simp
qed








subsection \<open>Budgets and levels outside the tables\<close>






subsection \<open>No step raises on a well-formed catalog\<close>

lemma plan_price: "wf_plan p \<Longrightarrow> \<exists>v. py_get p (ascii ''price'') (YInt 0) = Inr v \<and> is_num v"
  by (cases p) (auto simp: wf_plan_def is_num_def split: option.splits)

lemma min_loop_total:
  "is_num cur \<Longrightarrow> list_all wf_plan ps \<Longrightarrow> \<exists>v. min_loop cur ps = Inr v \<and> is_num v"
proof (induction ps arbitrary: cur)
  case Nil
  then show ?case by simp
next
  case (Cons p ps)
  from Cons.prems obtain v where v: "py_get p (ascii ''price'') (YInt 0) = Inr v" "is_num v"
    using plan_price [of p] by auto
  from v(2) Cons.prems(1) obtain x y where xy: "num_of v = Some x" "num_of cur = Some y"
    by (auto simp: is_num_def)
  have "is_num (if x < y then v else cur)"
    using v(2) Cons.prems(1) by simp
  from Cons.IH [OF this] Cons.prems(2) v(1) xy show ?case
    by (simp add: py_lt_num)
qed

lemma min_price_total:
  assumes "wf_tool t"
  shows "\<exists>v. min_price t = Inr v \<and> is_num v"
proof -
  from assms obtain kvs where t: "t = YDict kvs" by (cases t) (simp_all add: wf_tool_def)
  show ?thesis
  proof (cases "map_of kvs (ascii ''pricing'')")
    case None
    with t show ?thesis by (simp add: min_price_def is_num_def)
  next
    case (Some pr)
    with assms t have pr: "wf_pricing pr" by (simp add: wf_tool_def)
    then obtain ps where p: "pr = YDict ps" by (cases pr) (simp_all add: wf_pricing_def)
    show ?thesis
    proof (cases "map_of ps (ascii ''paid_plans'')")
      case None
      with t Some p show ?thesis by (simp add: min_price_def is_num_def)
    next
      case plans: (Some pl)
      with pr p obtain xs where xs: "pl = YList xs" "list_all wf_plan xs"
        by (cases pl) (simp_all add: wf_pricing_def)
      show ?thesis
      proof (cases xs)
        case Nil
        with t Some p plans xs show ?thesis by (simp add: min_price_def is_num_def)
      next
        case (Cons x rest)
        with xs have "wf_plan x" "list_all wf_plan rest" by simp_all
        from plan_price [OF this(1)] obtain v where
          v: "py_get x (ascii ''price'') (YInt 0) = Inr v" "is_num v" by blast
        from min_loop_total [OF v(2) \<open>list_all wf_plan rest\<close>] t Some p plans xs Cons v(1)
        show ?thesis by (simp add: min_price_def)
      qed
    qed
  qed
qed

lemma has_free_total:
  assumes "wf_tool t"
  shows "\<exists>v. has_free t = Inr v"
proof -
  from assms obtain kvs where t: "t = YDict kvs" by (cases t) (simp_all add: wf_tool_def)
  show ?thesis
  proof (cases "map_of kvs (ascii ''pricing'')")
    case None
    with t show ?thesis by (simp add: has_free_def)
  next
    case (Some pr)
    with assms t have "wf_pricing pr" by (simp add: wf_tool_def)
    then obtain ps where "pr = YDict ps" by (cases pr) (simp_all add: wf_pricing_def)
    with t Some show ?thesis by (simp add: has_free_def)
  qed
qed

lemma scores_total:
  assumes "wf_tool t"
  shows "\<exists>ov v. scores_item t (ascii ''overall'') = Inr ov \<and> is_num ov \<and>
           scores_item t (ascii ''value'') = Inr v \<and> is_num v"
proof -
  from assms obtain kvs where t: "t = YDict kvs" by (cases t) (simp_all add: wf_tool_def)
  with assms obtain s where s: "map_of kvs (ascii ''scores'') = Some s" "wf_scores s"
    by (auto simp: wf_tool_def split: option.splits)
  then obtain ss where ss: "s = YDict ss" by (cases s) (simp_all add: wf_scores_def)
  with s(2) t s(1) show ?thesis
    by (auto simp: wf_scores_def scores_item_def split: option.splits)
qed

lemma tool_tech_total:
  assumes "wf_tool t"
  shows "\<exists>tt. tool_tech t = Inr tt"
proof -
  from assms obtain kvs where t: "t = YDict kvs" by (cases t) (simp_all add: wf_tool_def)
  show ?thesis
  proof (cases "map_of kvs (ascii ''technical_level'')")
    case None
    with t show ?thesis by (simp add: tool_tech_def)
  next
    case (Some l)
    with assms t have "wf_level l" by (simp add: wf_tool_def)
    with t Some show ?thesis by (cases l) (simp_all add: tool_tech_def wf_level_def)
  qed
qed

lemma budget_rule_total:
  assumes "is_num ov" and "is_num mp"
  shows "\<exists>k. budget_rule b bl hf mp (ov, rs) = Inr k \<and> (\<forall>acc. k = Some acc \<longrightarrow> is_num (fst acc))"
proof -
  from assms obtain x y where "num_of ov = Some x" "num_of mp = Some y"
    by (auto simp: is_num_def)
  then show ?thesis using assms(1)
    by (simp add: budget_rule_def py_gt_def py_lt_num py_arith_num)
qed

lemma tech_rule_total:
  assumes "wf_tool t" and "is_num (fst acc)"
  shows "\<exists>acc'. tech_rule ut t acc = Inr acc' \<and> is_num (fst acc')"
proof -
  from tool_tech_total [OF assms(1)] obtain tt where tt: "tool_tech t = Inr tt" by blast
  from assms(2) obtain x where "num_of (fst acc) = Some x" by (auto simp: is_num_def)
  with tt assms(2) show ?thesis
    by (cases acc) (simp add: tech_rule_def py_arith_num)
qed

lemma value_rule_total:
  assumes "wf_tool t" and "is_num s"
  shows "\<exists>x. value_rule t s = Inr x"
proof -
  from scores_total [OF assms(1)] obtain v where
    v: "scores_item t (ascii ''value'') = Inr v" "is_num v" by blast
  from v(2) assms(2) obtain x y where "num_of v = Some x" "num_of s = Some y"
    by (auto simp: is_num_def)
  with v(1) show ?thesis
    by (simp add: value_rule_def py_arith_num)
qed

lemma score_tool_total:
  assumes "wf_tool t"
  shows "\<exists>out. score_tool cs b bl ut t = Inr out"
proof -
  from assms obtain kvs where t: "t = YDict kvs" by (cases t) (simp_all add: wf_tool_def)
  then obtain c where c: "py_get t (ascii ''category'') YNone = Inr c" by simp
  show ?thesis
  proof (cases "py_in c cs")
    case False
    with c show ?thesis by (simp add: score_tool_skip)
  next
    case True
    from scores_total [OF assms] obtain ov where
      ov: "scores_item t (ascii ''overall'') = Inr ov" "is_num ov" by blast
    from min_price_total [OF assms] obtain mp where mp: "min_price t = Inr mp" "is_num mp"
      by blast
    from has_free_total [OF assms] obtain hf where hf: "has_free t = Inr hf" by blast
    from budget_rule_total [OF ov(2) mp(2)] obtain k where
      k: "budget_rule b bl hf mp (ov, []) = Inr k" "\<forall>acc. k = Some acc \<longrightarrow> is_num (fst acc)"
      by blast
    show ?thesis
    proof (cases k)
      case None
      with c True ov mp hf k show ?thesis by (simp add: score_tool_def)
    next
      case (Some acc)
      with k(2) have "is_num (fst acc)" by simp
      from tech_rule_total [OF assms this] obtain acc' where
        a: "tech_rule ut t acc = Inr acc'" "is_num (fst acc')" by blast
      from value_rule_total [OF assms a(2)] obtain x where "value_rule t (fst acc') = Inr x"
        by blast
      with c True ov mp hf k Some a show ?thesis by (simp add: score_tool_def)
    qed
  qed
qed


lemma wf_catalog_scored:
  assumes "wf_catalog c"
  shows "\<exists>ts. py_iter c = Inr ts \<and> (\<forall>t \<in> set ts. \<exists>out. score_tool cs b bl ut t = Inr out)"
proof -
  from assms obtain ts where "c = YList ts" "list_all wf_tool ts"
    by (cases c) (simp_all add: wf_catalog_def)
  then show ?thesis
    by (auto simp: list_all_iff intro: score_tool_total)
qed

section \<open>The classifier\<close>

lemma category_scores_eq:
  "category_scores lower low tbl =
     map (\<lambda>ck. (fst ck, keyword_count lower low (snd ck)))
       (filter (\<lambda>ck. 0 < keyword_count lower low (snd ck)) tbl)"
  by (induction tbl) (auto simp: Let_def)

lemma category_scores_Nil:
  "\<forall>ck \<in> set tbl. \<forall>kw \<in> set (snd ck). \<not> sublist (lower kw) low \<Longrightarrow>
     category_scores lower low tbl = []"
  by (induction tbl) (auto simp: Let_def keyword_count_def)

lemma keyword_count_card:
  assumes "distinct kws"
  shows "keyword_count lower low kws = int (card {kw \<in> set kws. sublist (lower kw) low})"
proof -
  have "{kw. sublist (lower kw) low} \<inter> set kws = {kw \<in> set kws. sublist (lower kw) low}"
    by auto
  with distinct_length_filter [OF assms, of "\<lambda>kw. sublist (lower kw) low"]
  show ?thesis by (simp add: keyword_count_def)
qed

lemma table_distinct_keys: "distinct (map fst CATEGORY_KEYWORDS)"
  by (simp add: CATEGORY_KEYWORDS_def)

lemma table_distinct_keywords: "\<forall>ck \<in> set CATEGORY_KEYWORDS. distinct (snd ck)"
  by (simp add: CATEGORY_KEYWORDS_def ascii_def)

lemma table_nonempty_keywords: "\<forall>ck \<in> set CATEGORY_KEYWORDS. \<forall>kw \<in> set (snd ck). kw \<noteq> []"
  by (simp add: CATEGORY_KEYWORDS_def ascii_def)

lemma table_keys:
  "map fst CATEGORY_KEYWORDS =
     [ascii ''coding'', ascii ''writing'', ascii ''image'', ascii ''audio'', ascii ''research'',
      ascii ''data'', ascii ''video'', ascii ''foundation'']"
  by (simp add: CATEGORY_KEYWORDS_def)

lemma keywords_of_entry:
  assumes "ck \<in> set CATEGORY_KEYWORDS"
  shows "keywords_of (fst ck) = snd ck"
proof -
  from assms have "map_of CATEGORY_KEYWORDS (fst ck) = Some (snd ck)"
    by (simp add: map_of_eq_Some_iff [OF table_distinct_keys])
  then show ?thesis by (simp add: keywords_of_def)
qed

lemma count_entry:
  assumes "ck \<in> set CATEGORY_KEYWORDS"
  shows "keyword_count lower (lower txt) (snd ck) = int (hits lower txt (fst ck))"
  using assms table_distinct_keywords
  by (simp add: keyword_count_card hits_def keywords_of_entry)

lemma keywords_of_cases:
  "keywords_of c = [] \<or> (\<exists>ck \<in> set CATEGORY_KEYWORDS. fst ck = c \<and> keywords_of c = snd ck)"
proof (cases "map_of CATEGORY_KEYWORDS c")
  case None
  then show ?thesis by (simp add: keywords_of_def)
next
  case (Some kws)
  then have "(c, kws) \<in> set CATEGORY_KEYWORDS" by (rule map_of_SomeD)
  moreover from Some have "keywords_of c = kws" by (simp add: keywords_of_def)
  ultimately show ?thesis by force
qed

lemma hits_positive_in_table:
  assumes "0 < hits lower txt c"
  shows "c \<in> fst ` set CATEGORY_KEYWORDS"
proof -
  from assms have "keywords_of c \<noteq> []"
    by (auto simp: hits_def)
  with keywords_of_cases [of c] show ?thesis by auto
qed

lemma hits_code:
  "hits lower txt c =
     length (remdups (filter (\<lambda>kw. sublist (lower kw) (lower txt)) (keywords_of c)))"
proof -
  have "{kw \<in> set (keywords_of c). sublist (lower kw) (lower txt)} =
      set (filter (\<lambda>kw. sublist (lower kw) (lower txt)) (keywords_of c))"
    by simp
  then show ?thesis
    unfolding hits_def by (simp only: card_set)
qed

lemma map_of_keyed:
  "c \<in> set (map k xs) \<Longrightarrow> map_of (map (\<lambda>x. (k x, g (k x))) xs) c = Some (g c)"
  by (induction xs) auto

lemma scores_shape:
  "category_scores lower (lower txt) CATEGORY_KEYWORDS =
     map (\<lambda>ck. (fst ck, int (hits lower txt (fst ck))))
       (filter (\<lambda>ck. 0 < hits lower txt (fst ck)) CATEGORY_KEYWORDS)"
proof -
  have "filter (\<lambda>ck. 0 < keyword_count lower (lower txt) (snd ck)) CATEGORY_KEYWORDS =
      filter (\<lambda>ck. 0 < hits lower txt (fst ck)) CATEGORY_KEYWORDS"
    by (rule filter_cong) (simp_all add: count_entry)
  moreover have "map (\<lambda>ck. (fst ck, keyword_count lower (lower txt) (snd ck)))
        (filter (\<lambda>ck. 0 < hits lower txt (fst ck)) CATEGORY_KEYWORDS) =
      map (\<lambda>ck. (fst ck, int (hits lower txt (fst ck))))
        (filter (\<lambda>ck. 0 < hits lower txt (fst ck)) CATEGORY_KEYWORDS)"
    by (rule map_cong) (simp_all add: count_entry)
  ultimately show ?thesis by (simp add: category_scores_eq)
qed

lemma scores_keys:
  "map fst (category_scores lower (lower txt) CATEGORY_KEYWORDS) =
     filter (\<lambda>c. 0 < hits lower txt c) (map fst CATEGORY_KEYWORDS)"
  by (simp add: scores_shape filter_map comp_def)

lemma score_of_scores:
  assumes "c \<in> set (map fst (category_scores lower (lower txt) CATEGORY_KEYWORDS))"
  shows "score_of (category_scores lower (lower txt) CATEGORY_KEYWORDS) c = int (hits lower txt c)"
proof -
  from assms have
    "c \<in> set (map fst (filter (\<lambda>ck. 0 < hits lower txt (fst ck)) CATEGORY_KEYWORDS))"
    by (simp add: scores_shape comp_def)
  from map_of_keyed [OF this, of "\<lambda>c. int (hits lower txt c)"] show ?thesis
    by (simp add: score_of_def scores_shape)
qed

lemma classify_positive:
  assumes "0 < hits lower txt c"
  shows "fst (classify_scenario self lower txt) =
     sort_key (\<lambda>c. - int (hits lower txt c))
       (filter (\<lambda>c. 0 < hits lower txt c) (map fst CATEGORY_KEYWORDS))"
proof -
  let ?scores = "category_scores lower (lower txt) CATEGORY_KEYWORDS"
  from assms hits_positive_in_table [OF assms]
  have "c \<in> set (filter (\<lambda>c. 0 < hits lower txt c) (map fst CATEGORY_KEYWORDS))"
    by simp
  then have "map fst ?scores \<noteq> []"
    unfolding scores_keys by (metis empty_iff empty_set)
  then have ne: "?scores \<noteq> []" by auto
  have "sort_key (\<lambda>c. - score_of ?scores c) (map fst ?scores) =
      sort_key (\<lambda>c. - int (hits lower txt c)) (map fst ?scores)"
    by (rule sort_key_eq) (simp add: score_of_scores)
  with ne show ?thesis
    by (simp add: classify_scenario_def Let_def scores_keys)
qed

lemma classify_no_keyword:
  assumes "\<forall>ck \<in> set CATEGORY_KEYWORDS. \<forall>kw \<in> set (snd ck). \<not> sublist (lower kw) (lower txt)"
  shows "fst (classify_scenario self lower txt) = [ascii ''foundation'']"
  using category_scores_Nil [OF assms]
  by (simp add: classify_scenario_def)

section \<open>Concrete runs\<close>

lemma score_tool_w: "score_tool [ascii ''coding''] b bl ut tool_w = Inr None"
  by (simp add: score_tool_def tool_w_def)

lemma score_tool_a:
  "score_tool [ascii ''coding''] b bl 1 tool_a =
     Inr (Some \<lparr>tool = tool_a, score = 46 / 5, match_reasons = [reason_free, reason_tech]\<rparr>)"
  by (simp add: score_tool_def tool_a_def scores_item_def min_price_def has_free_def
      budget_rule_def tech_rule_def tool_tech_def TECH_LEVELS_def value_rule_def
      py_add_def py_mul_def)

lemma score_tool_b:
  "score_tool [ascii ''coding''] (ascii ''medium'') 50 1 tool_b =
     Inr (Some \<lparr>tool = tool_b, score = 91 / 10, match_reasons = [reason_tech]\<rparr>)"
  by (simp add: score_tool_def tool_b_def scores_item_def min_price_def has_free_def
      budget_rule_def tech_rule_def tool_tech_def TECH_LEVELS_def value_rule_def
      py_add_def py_mul_def py_gt_def)

lemma score_tool_c:
  "score_tool [ascii ''coding''] (ascii ''medium'') 50 1 tool_c =
     Inr (Some \<lparr>tool = tool_c, score = 63 / 10, match_reasons = []\<rparr>)"
  by (simp add: score_tool_def tool_c_def scores_item_def min_price_def has_free_def
      budget_rule_def tech_rule_def tool_tech_def TECH_LEVELS_def value_rule_def
      py_add_def py_mul_def py_sub_def py_gt_def)




lemma recommend_example:
  "fst (recommend example [ascii ''coding''] (ascii ''medium'') (ascii ''beginner'') 2) =
     Inr [\<lparr>tool = tool_a, score = 46 / 5, match_reasons = [reason_free, reason_tech]\<rparr>,
          \<lparr>tool = tool_b, score = 91 / 10, match_reasons = [reason_tech]\<rparr>]"
  by (simp add: recommend_def example_def level_medium level_beginner
      score_tool_w score_tool_a score_tool_b score_tool_c py_slice_to_def)






lemma ascii_lower_empty [simp]: "ascii_lower [] = []"
  by (simp add: ascii_lower_def)

lemma ascii_lower_Nil [simp]: "ascii_lower s = [] \<longleftrightarrow> s = []"
  by (simp add: ascii_lower_def)

lemma classify_empty: "fst (classify_scenario self ascii_lower []) = [ascii ''foundation'']"
proof -
  have "\<forall>ck \<in> set CATEGORY_KEYWORDS. \<forall>kw \<in> set (snd ck).
      \<not> sublist (ascii_lower kw) (ascii_lower [])"
    using table_nonempty_keywords by simp
  then show ?thesis by (rule classify_no_keyword)
qed

lemma hits_empty: "hits ascii_lower [] c = 0"
proof -
  have "{kw \<in> set (keywords_of c). sublist (ascii_lower kw) (ascii_lower [])} = {}"
    using keywords_of_cases [of c] table_nonempty_keywords by fastforce
  then show ?thesis by (simp add: hits_def)
qed

lemma lower_text_tools:
  "ascii_lower text_tools = [100, 101, 98, 117, 103, 32, 97, 112, 105, 32, 101, 120, 99, 101, 108]"
  by (simp add: text_tools_def ascii_def ascii_lower_def)

lemma lower_text_plain:
  "ascii_lower text_plain = [104, 101, 108, 108, 111, 32, 119, 111, 114, 108, 100]"
  by (simp add: text_plain_def ascii_def ascii_lower_def)

lemma no_keyword_plain:
  "\<forall>ck \<in> set CATEGORY_KEYWORDS. \<forall>kw \<in> set (snd ck).
     \<not> sublist (ascii_lower kw) (ascii_lower text_plain)"
  unfolding lower_text_plain
  by (simp add: CATEGORY_KEYWORDS_def ascii_def ascii_lower_def sublist_code)

lemma hits_text_tools:
    "hits ascii_lower text_tools (ascii ''coding'') = 2"
    "hits ascii_lower text_tools (ascii ''writing'') = 0"
    "hits ascii_lower text_tools (ascii ''image'') = 0"
    "hits ascii_lower text_tools (ascii ''audio'') = 0"
    "hits ascii_lower text_tools (ascii ''research'') = 0"
    "hits ascii_lower text_tools (ascii ''data'') = 1"
    "hits ascii_lower text_tools (ascii ''video'') = 0"
    "hits ascii_lower text_tools (ascii ''foundation'') = 0"
  unfolding hits_code lower_text_tools
  by (simp_all add: keywords_of_def CATEGORY_KEYWORDS_def ascii_def ascii_lower_def sublist_code)

lemma classify_example:
  "fst (classify_scenario example ascii_lower text_tools) = [ascii ''coding'', ascii ''data'']"
proof -
  have "0 < hits ascii_lower text_tools (ascii ''coding'')"
    by (simp add: hits_text_tools)
  from classify_positive [OF this, of example] show ?thesis
    by (simp add: table_keys hits_text_tools)
qed

section \<open>The claims\<close>





text \<open>
  Claim C3, as stated, fails: \<open>__init__\<close> checks no field of any record. A document
  whose only record has an id and a category, but neither a name nor scores, loads.
\<close>

theorem init_unchecked_counterexample:
  "\<not> has_required_fields tool_w \<and>
   init (Document (YDict [(ascii ''tools'', YList [tool_w])])) = Inr \<lparr>tools = YList [tool_w]\<rparr>"
  by (simp add: has_required_fields_def tool_w_def)

text \<open>
  Claim C3, amended. Loading fails when the source is missing or cannot be parsed, and
  succeeds only for a document that is a mapping. Every such document loads, whatever
  its records hold, and the catalog is then the whole \<open>tools\<close> entry of the document
  (the empty list when there is none): never a part of it.
\<close>

theorem init_outcome:
  "(src = Missing \<or> src = Unparsable \<longrightarrow> (\<exists>e. init src = Inl e)) \<and>
   (\<forall>kvs. src = Document (YDict kvs) \<longrightarrow>
      init src = Inr \<lparr>tools = (case map_of kvs (ascii ''tools'') of Some ts \<Rightarrow> ts | None \<Rightarrow> YList [])\<rparr>) \<and>
   (\<forall>r. init src = Inr r \<longrightarrow> (\<exists>kvs. src = Document (YDict kvs)))"
proof (intro conjI allI impI)
  assume "src = Missing \<or> src = Unparsable"
  then show "\<exists>e. init src = Inl e" by auto
next
  fix kvs
  assume "src = Document (YDict kvs)"
  then show "init src = Inr \<lparr>tools = (case map_of kvs (ascii ''tools'') of Some ts \<Rightarrow> ts | None \<Rightarrow> YList [])\<rparr>"
    by simp
next
  fix r
  assume r: "init src = Inr r"
  show "\<exists>kvs. src = Document (YDict kvs)"
  proof (cases src)
    case Missing
    with r show ?thesis by simp
  next
    case Unparsable
    with r show ?thesis by simp
  next
    case (Document d)
    with r show ?thesis by (cases d) simp_all
  qed
qed

theorem init_outcome_witness:
  "init Missing = Inl OSError \<and>
   init (Document (YDict [(ascii ''tools'', YList [tool_w, tool_a])])) =
     Inr \<lparr>tools = YList [tool_w, tool_a]\<rparr> \<and>
   init (Document (YDict [])) = Inr \<lparr>tools = YList []\<rparr>"
  using init_outcome [of Missing]
    init_outcome [of "Document (YDict [(ascii ''tools'', YList [tool_w, tool_a])])"]
    init_outcome [of "Document (YDict [])"]
  by simp

text \<open>
  Claim C4, as stated for every text, fails where no category has a positive count: for
  the empty text the result is \<open>[foundation]\<close>, a category whose count is zero, and
  not the (empty) list of the categories with a positive count.
\<close>

theorem classify_ranking_counterexample:
  "fst (classify_scenario example ascii_lower []) = [ascii ''foundation''] \<and>
   hits ascii_lower [] (ascii ''foundation'') = 0 \<and>
   \<not> ranked_by_hits ascii_lower [] (fst (classify_scenario example ascii_lower []))"
proof -
  have "\<not> ranked_by_hits ascii_lower [] [ascii ''foundation'']"
    by (simp add: ranked_by_hits_def hits_empty)
  then show ?thesis by (simp add: classify_empty hits_empty)
qed

text \<open>
  Claim C4, amended. For every text in which some category has a positive count,
  \<open>classify_scenario\<close> returns exactly the categories with a positive count, ordered by
  descending count, ties in the declaration order of the table; the count of a category
  is the number of its keywords whose lowered form is a substring of the lowered text.
\<close>

theorem classify_ranking:
  assumes "0 < hits lower txt c"
  shows "ranked_by_hits lower txt (fst (classify_scenario self lower txt))"
proof -
  let ?h = "hits lower txt"
  let ?cats = "filter (\<lambda>c. 0 < ?h c) (map fst CATEGORY_KEYWORDS)"
  let ?rs = "sort_key (\<lambda>c. - int (?h c)) ?cats"
  have rs: "fst (classify_scenario self lower txt) = ?rs"
    by (rule classify_positive [OF assms])
  have 1: "set ?rs = {c \<in> fst ` set CATEGORY_KEYWORDS. 0 < ?h c}"
    by auto
  have 2: "distinct ?rs"
    using table_distinct_keys by simp
  have "sorted (map (\<lambda>c. - int (?h c)) ?rs)"
    by (rule sorted_sort_key)
  then have 3: "sorted_wrt (\<lambda>a b. ?h b \<le> ?h a) ?rs"
    by (simp add: sorted_map)
  have 4: "filter (\<lambda>c. ?h c = k) ?rs =
      filter (\<lambda>c. ?h c = k \<and> 0 < k) (map fst CATEGORY_KEYWORDS)" for k
  proof -
    have "filter (\<lambda>c. ?h c = k) ?rs = filter (\<lambda>c. ?h c = k) ?cats"
      using sort_key_stable [of "\<lambda>c. - int (?h c)" "- int k" ?cats] by simp
    also have "\<dots> = filter (\<lambda>c. ?h c = k \<and> 0 < k) (map fst CATEGORY_KEYWORDS)"
      by (auto intro: filter_cong)
    finally show ?thesis .
  qed
  from 1 2 3 4 show ?thesis
    unfolding ranked_by_hits_def rs by blast
qed

theorem classify_ranking_witness:
  "0 < hits ascii_lower text_tools (ascii ''coding'') \<and>
   fst (classify_scenario example ascii_lower text_tools) = [ascii ''coding'', ascii ''data''] \<and>
   ranked_by_hits ascii_lower text_tools [ascii ''coding'', ascii ''data'']"
proof -
  have h: "0 < hits ascii_lower text_tools (ascii ''coding'')"
    by (simp add: hits_text_tools)
  from classify_ranking [OF h, of example] h show ?thesis
    by (simp add: classify_example)
qed



text \<open>
  Claim C6. Every candidate that \<open>recommend\<close> returns carries a record whose
  \<open>category\<close> is a string of the requested categories; and a record whose category is
  no member is skipped by the loop at once: no score is computed for it, whatever its
  other fields are.
\<close>

theorem recommend_only_requested_categories:
  "(fst (recommend self categories budget tech_level top_n) = Inr rs \<longrightarrow>
      (\<forall>r \<in> set rs. \<exists>c. py_get (tool r) (ascii ''category'') YNone = Inr (YStr c) \<and> c \<in> set categories)) \<and>
   (py_get t (ascii ''category'') YNone = Inr v \<and> \<not> py_in v categories \<longrightarrow>
      score_tool categories budget budget_limit user_tech t = Inr None)"
proof (intro conjI impI ballI)
  fix r
  assume "fst (recommend self categories budget tech_level top_n) = Inr rs" and "r \<in> set rs"
  from recommend_member [OF this] obtain t' where
    "score_tool categories budget (level_of BUDGET_LEVELS budget 50)
       (level_of TECH_LEVELS tech_level 1) t' = Inr (Some r)"
    by blast
  from score_tool_Some [OF this]
  show "\<exists>c. py_get (tool r) (ascii ''category'') YNone = Inr (YStr c) \<and> c \<in> set categories"
    by auto
next
  assume "py_get t (ascii ''category'') YNone = Inr v \<and> \<not> py_in v categories"
  then show "score_tool categories budget budget_limit user_tech t = Inr None"
    by (simp add: score_tool_skip)
qed

theorem recommend_only_requested_categories_witness:
  "fst (recommend example [ascii ''coding''] (ascii ''medium'') (ascii ''beginner'') 2) =
     Inr [\<lparr>tool = tool_a, score = 46 / 5, match_reasons = [reason_free, reason_tech]\<rparr>,
          \<lparr>tool = tool_b, score = 91 / 10, match_reasons = [reason_tech]\<rparr>] \<and>
   py_get tool_a (ascii ''category'') YNone = Inr (YStr (ascii ''coding'')) \<and>
   py_get tool_b (ascii ''category'') YNone = Inr (YStr (ascii ''coding'')) \<and>
   py_get tool_w (ascii ''category'') YNone = Inr (YStr (ascii ''writing'')) \<and>
   \<not> py_in (YStr (ascii ''writing'')) [ascii ''coding''] \<and>
   score_tool [ascii ''coding''] (ascii ''medium'') 50 1 tool_w = Inr None"
  using recommend_only_requested_categories
    [where self = example and categories = "[ascii ''coding'']" and budget = "ascii ''medium''"
       and tech_level = "ascii ''beginner''" and top_n = 2 and t = tool_w
       and v = "YStr (ascii ''writing'')" and budget_limit = 50 and user_tech = 1]
  by (simp add: recommend_example tool_a_def tool_b_def tool_w_def)

text \<open>
  Claim C7. For the empty text, and for every text in which no keyword of any category
  occurs, \<open>classify_scenario\<close> returns \<open>[foundation]\<close>. For the empty text this uses
  two facts of \<^verbatim>\<open>str.lower\<close>: it maps the empty string to itself and no keyword to
  the empty string.
\<close>

theorem classify_default:
  "(lower [] = [] \<and> (\<forall>ck \<in> set CATEGORY_KEYWORDS. \<forall>kw \<in> set (snd ck). lower kw \<noteq> []) \<longrightarrow>
      fst (classify_scenario self lower []) = [ascii ''foundation'']) \<and>
   ((\<forall>ck \<in> set CATEGORY_KEYWORDS. \<forall>kw \<in> set (snd ck). \<not> sublist (lower kw) (lower txt)) \<longrightarrow>
      fst (classify_scenario self lower txt) = [ascii ''foundation''])"
proof (intro conjI impI)
  assume "lower [] = [] \<and> (\<forall>ck \<in> set CATEGORY_KEYWORDS. \<forall>kw \<in> set (snd ck). lower kw \<noteq> [])"
  then have "\<forall>ck \<in> set CATEGORY_KEYWORDS. \<forall>kw \<in> set (snd ck). \<not> sublist (lower kw) (lower [])"
    by simp
  then show "fst (classify_scenario self lower []) = [ascii ''foundation'']"
    by (rule classify_no_keyword)
next
  assume "\<forall>ck \<in> set CATEGORY_KEYWORDS. \<forall>kw \<in> set (snd ck). \<not> sublist (lower kw) (lower txt)"
  then show "fst (classify_scenario self lower txt) = [ascii ''foundation'']"
    by (rule classify_no_keyword)
qed

theorem classify_default_witness:
  "ascii_lower [] = [] \<and>
   fst (classify_scenario example ascii_lower []) = [ascii ''foundation''] \<and>
   fst (classify_scenario example ascii_lower text_plain) = [ascii ''foundation'']"
proof -
  have e: "ascii_lower [] = [] \<and>
      (\<forall>ck \<in> set CATEGORY_KEYWORDS. \<forall>kw \<in> set (snd ck). ascii_lower kw \<noteq> [])"
    using table_nonempty_keywords by simp
  from classify_default [of ascii_lower example text_plain] e no_keyword_plain
  show ?thesis by simp
qed



text \<open>
  Claim C9. \<open>recommend\<close> and \<open>classify_scenario\<close> leave the object, and so every
  record of the catalog, as it was; each returned candidate carries a record of the
  catalog itself, and the accumulated score lives in the candidate only.
\<close>

theorem catalog_unchanged:
  "snd (recommend self categories budget tech_level top_n) = self \<and>
   snd (classify_scenario self lower text) = self \<and>
   (fst (recommend self categories budget tech_level top_n) = Inr rs \<longrightarrow>
      (\<exists>ts. py_iter (tools self) = Inr ts \<and> (\<forall>r \<in> set rs. tool r \<in> set ts)))"
proof (intro conjI impI)
  show "snd (recommend self categories budget tech_level top_n) = self"
    by (simp add: recommend_def Let_def)
  show "snd (classify_scenario self lower text) = self"
    by (simp add: classify_scenario_def Let_def)
next
  assume rs: "fst (recommend self categories budget tech_level top_n) = Inr rs"
  from recommend_Inr [OF rs] obtain ts where ts: "py_iter (tools self) = Inr ts"
    by blast
  have "\<forall>r \<in> set rs. tool r \<in> set ts"
  proof
    fix r
    assume "r \<in> set rs"
    from recommend_member [OF rs this] ts obtain t where
      "t \<in> set ts" and
      "score_tool categories budget (level_of BUDGET_LEVELS budget 50)
         (level_of TECH_LEVELS tech_level 1) t = Inr (Some r)"
      by auto
    with score_tool_Some [OF this(2)] show "tool r \<in> set ts" by auto
  qed
  with ts show "\<exists>ts. py_iter (tools self) = Inr ts \<and> (\<forall>r \<in> set rs. tool r \<in> set ts)"
    by blast
qed

theorem catalog_unchanged_witness:
  "snd (recommend example [ascii ''coding''] (ascii ''medium'') (ascii ''beginner'') 2) = example \<and>
   snd (classify_scenario example ascii_lower (ascii ''debug'')) = example \<and>
   fst (recommend example [ascii ''coding''] (ascii ''medium'') (ascii ''beginner'') 2) =
     Inr [\<lparr>tool = tool_a, score = 46 / 5, match_reasons = [reason_free, reason_tech]\<rparr>,
          \<lparr>tool = tool_b, score = 91 / 10, match_reasons = [reason_tech]\<rparr>] \<and>
   py_iter (tools example) = Inr [tool_w, tool_c, tool_b, tool_a]"
proof -
  have i: "py_iter (tools example) = Inr [tool_w, tool_c, tool_b, tool_a]"
    by (simp add: example_def)
  from catalog_unchanged
    [of example "[ascii ''coding'']" "ascii ''medium''" "ascii ''beginner''" 2 ascii_lower
       "ascii ''debug''"] i
  show ?thesis
    by (simp add: recommend_example)
qed

text \<open>
  Claim C10. With an empty list of categories \<open>recommend\<close> returns the empty list and
  raises nothing, for every budget, technical level and \<open>top_n\<close>: the membership test
  drops every record before any of its other fields is read. A catalog is a list of
  records, that is of mappings (\<^verbatim>\<open>self.tools: list[dict]\<close>), which may lack any field.
\<close>

theorem recommend_no_categories:
  "tools self = YList ts \<Longrightarrow> list_all is_dict ts \<Longrightarrow>
     fst (recommend self [] budget tech_level top_n) = Inr []"
  by (simp add: recommend_def Let_def collect_no_categories py_slice_to_def)

theorem recommend_no_categories_witness:
  "tools example = YList [tool_w, tool_c, tool_b, tool_a] \<and>
   list_all is_dict [tool_w, tool_c, tool_b, tool_a] \<and>
   fst (recommend example [] (ascii ''medium'') (ascii ''beginner'') 3) = Inr []"
proof -
  have t: "tools example = YList [tool_w, tool_c, tool_b, tool_a]"
    by (simp add: example_def)
  have d: "list_all is_dict [tool_w, tool_c, tool_b, tool_a]"
    by (simp add: tool_a_def tool_b_def tool_c_def tool_w_def)
  from recommend_no_categories [OF t d] t d show ?thesis by simp
qed

end
